theory Spec2Isabelle
  imports Main "HOL-Library.Word"
begin

section \<open>The mDNS host responder of plugins/mdns/mdnsserver.cpp\<close>

text \<open>
  The development embeds \<^verbatim>\<open>MdnsServer\<close> (src/plugins/mdns/mdnsserver.cpp): the
  hostname claim, the record generator, the query responder and the rebind cycle.
  Every handler is a function from the server object to the server object. What the
  handlers ask of their collaborators (datagrams written to a socket, multicast groups
  joined, timers started, errors signalled) is appended to a trace kept beside the
  object's fields, oldest call first.
\<close>

subsection \<open>Addresses and the protocol constants\<close>

datatype network_layer_protocol = IPv4Protocol | IPv6Protocol | UnknownNetworkLayerProtocol

datatype host_address = Ipv4Host "32 word" | Ipv6Host "128 word" | NullHost

fun protocol :: "host_address \<Rightarrow> network_layer_protocol" where
  "protocol (Ipv4Host _) = IPv4Protocol"
| "protocol (Ipv6Host _) = IPv6Protocol"
| "protocol NullHost = UnknownNetworkLayerProtocol"

text \<open>
  \<^verbatim>\<open>QHostAddress::isInSubnet(subnet, netmask)\<close> is Qt's: both addresses of one family,
  the prefix length not negative (and cut to the width of the family), and the leading
  bits equal.
\<close>

fun isInSubnet :: "host_address \<Rightarrow> host_address \<Rightarrow> int \<Rightarrow> bool" where
  "isInSubnet (Ipv4Host a) (Ipv4Host n) len =
     (0 \<le> len \<and> drop_bit (32 - nat (min len 32)) a = drop_bit (32 - nat (min len 32)) n)"
| "isInSubnet (Ipv6Host a) (Ipv6Host n) len =
     (0 \<le> len \<and> drop_bit (128 - nat (min len 128)) a = drop_bit (128 - nat (min len 128)) n)"
| "isInSubnet _ _ _ = False"

text \<open>\<^verbatim>\<open>Mdns::Protocol\<close>, the family a message travels on.\<close>

datatype mdns_protocol = IPv4 | IPv6

text \<open>
  Modelled from the spec: the protocol constants of mdns.h (the record types
  \<^verbatim>\<open>Mdns::A\<close> and \<^verbatim>\<open>Mdns::AAAA\<close>, \<^verbatim>\<open>Mdns::Port\<close>, \<^verbatim>\<open>Mdns::Ipv4Address\<close>,
  \<^verbatim>\<open>Mdns::Ipv6Address\<close>), which is not among the sources. The spec names them
  without their values; they carry the values of the mDNS standard here.
\<close>

definition Mdns_A :: "16 word" where
  "Mdns_A = 1"

definition Mdns_AAAA :: "16 word" where
  "Mdns_AAAA = 28"

definition Mdns_Port :: "16 word" where
  "Mdns_Port = 5353"

definition Mdns_Ipv4Address :: host_address where
  "Mdns_Ipv4Address = Ipv4Host 0xE00000FB"

definition Mdns_Ipv6Address :: host_address where
  "Mdns_Ipv6Address = Ipv6Host 0xFF0200000000000000000000000000FB"

definition DefaultTtl :: "32 word" where
  "DefaultTtl = 60 * 60"

subsection \<open>Messages\<close>

text \<open>
  Modelled from the spec: \<^verbatim>\<open>MdnsQuery\<close>, \<^verbatim>\<open>MdnsRecord\<close> and \<^verbatim>\<open>MdnsMessage\<close>, whose
  declarations are not among the sources. They are used through their accessors only;
  the fields are those the spec lists for a message (family, address, port, response
  flag, the queries and the records in order). Names are byte strings; the conversion
  between \<^verbatim>\<open>QString\<close> and UTF-8 is the identity on them.
\<close>

record mdns_query =
  q_name :: string
  q_type :: "16 word"

record mdns_record =
  r_name :: string
  r_type :: "16 word"
  r_ttl :: "32 word"
  r_address :: host_address

record mdns_message =
  m_address :: host_address
  m_protocol :: mdns_protocol
  m_port :: "16 word"
  isResponse :: bool
  queries :: "mdns_query list"
  records :: "mdns_record list"

text \<open>
  Modelled from the spec: the default-constructed message, "built fresh per probe",
  a query-only message before anything is added to it. The address, family and port
  are set by every caller before the message is used.
\<close>

definition MdnsMessage :: mdns_message where
  "MdnsMessage = \<lparr>m_address = NullHost, m_protocol = IPv4, m_port = 0, isResponse = False,
     queries = [], records = []\<rparr>"

text \<open>
  Modelled from the spec: \<^verbatim>\<open>MdnsMessage::reply\<close>, the "reply envelope" built from a
  request: a response to the asker's address, family and port, which holds no record
  until one is added.
\<close>

definition reply :: "mdns_message \<Rightarrow> mdns_message" where
  "reply m = \<lparr>m_address = m_address m, m_protocol = m_protocol m, m_port = m_port m,
     isResponse = True, queries = [], records = []\<rparr>"

definition addQuery :: "mdns_query \<Rightarrow> mdns_message \<Rightarrow> mdns_message" where
  "addQuery q m = m\<lparr>queries := queries m @ [q]\<rparr>"

definition addRecord :: "mdns_record \<Rightarrow> mdns_message \<Rightarrow> mdns_message" where
  "addRecord r m = m\<lparr>records := records m @ [r]\<rparr>"

subsection \<open>The host: interfaces, machine name, the outcome of binding\<close>

record network_address_entry =
  ip :: host_address
  prefixLength :: int

text \<open>
  \<^verbatim>\<open>allAddresses\<close> is what the call \<^verbatim>\<open>interface.allAddresses()\<close> returns. In Qt
  \<^verbatim>\<open>QNetworkInterface::allAddresses\<close> is a static member: called through any
  interface it returns the addresses of the whole host. The list is kept per interface
  here, which covers that reading (every interface carries the same list) and the
  reading of the call as written.
\<close>

record network_interface =
  if_name :: string
  canMulticast :: bool
  addressEntries :: "network_address_entry list"
  allAddresses :: "host_address list"

text \<open>
  What the operating system answers to one \<^verbatim>\<open>bindSocket\<close>: the bind with
  \<^verbatim>\<open>ShareAddress\<close>, the \<^verbatim>\<open>setsockopt\<close> of \<^verbatim>\<open>SO_REUSEADDR\<close>, the bind with
  \<^verbatim>\<open>ReuseAddressHint\<close>.
\<close>

record bind_outcome =
  share_ok :: bool
  setsockopt_ok :: bool
  reuse_ok :: bool

record host =
  localHostName :: string
  allInterfaces :: "network_interface list"
  q_os_unix :: bool
  bind_ipv4 :: bind_outcome
  bind_ipv6 :: bind_outcome

subsection \<open>The server object and the trace of its calls\<close>

datatype socket_state = UnconnectedState | BoundState

datatype timer = SocketTimer | HostnameTimer

datatype bind_error = SetsockoptError | BindError

datatype effect =
    WriteDatagram mdns_protocol mdns_message host_address "16 word"
  | JoinMulticastGroup mdns_protocol host_address network_interface
  | TimerStart timer nat
  | EmitError bind_error

text \<open>
  Modelled from the spec: the type of \<^verbatim>\<open>mHostnameSuffix\<close> is declared in mdnsserver.h,
  which is not among the sources; the spec describes a counter with no upper bound, so
  it is a natural number. A timer is \<open>Some ms\<close> while it runs and \<open>None\<close> otherwise;
  both timers are single-shot.
\<close>

record mdns_server =
  mHostname :: string
  mHostnameSuffix :: nat
  mHostnameConfirmed :: bool
  mIpv4Socket :: socket_state
  mIpv6Socket :: socket_state
  mSocketTimer :: "nat option"
  mHostnameTimer :: "nat option"
  trace :: "effect list"

definition emit :: "effect \<Rightarrow> mdns_server \<Rightarrow> mdns_server" where
  "emit e s = s\<lparr>trace := trace s @ [e]\<rparr>"

definition startTimer :: "timer \<Rightarrow> nat \<Rightarrow> mdns_server \<Rightarrow> mdns_server" where
  "startTimer t ms s =
     emit (TimerStart t ms)
       (case t of SocketTimer \<Rightarrow> s\<lparr>mSocketTimer := Some ms\<rparr>
                | HostnameTimer \<Rightarrow> s\<lparr>mHostnameTimer := Some ms\<rparr>)"

subsection \<open>Building strings: \<^verbatim>\<open>QString::arg\<close>\<close>

text \<open>
  \<^verbatim>\<open>QString::arg\<close> is Qt's. A place marker is \<^verbatim>\<open>%\<close>, an optional \<^verbatim>\<open>L\<close>, and one
  or two decimal digits; the argument replaces every occurrence of the marker with the
  lowest number, and a string without a marker is returned as it is.
  \<open>findArgEscapes\<close> cuts the string into its pieces: a marker with its number and its
  text, or text that stays.
\<close>

definition digitValue :: "char \<Rightarrow> nat option" where
  "digitValue c =
     (if 48 \<le> (of_char c :: nat) \<and> (of_char c :: nat) \<le> 57 then Some (of_char c - 48) else None)"

fun findArgEscapes :: "string \<Rightarrow> (nat option \<times> string) list" where
  "findArgEscapes [] = []"
| "findArgEscapes [c] = [(None, [c])]"
| "findArgEscapes (c # d # cs) =
     (if c \<noteq> CHR ''%'' then (None, [c]) # findArgEscapes (d # cs)
      else if d = CHR ''L'' then
        (case cs of
           [] \<Rightarrow> [(None, [c, d])]
         | e # es \<Rightarrow>
             (case digitValue e of
                None \<Rightarrow> (None, [c, d]) # findArgEscapes (e # es)
              | Some v \<Rightarrow>
                  (case es of
                     [] \<Rightarrow> [(Some v, [c, d, e])]
                   | f # fs \<Rightarrow>
                       (case digitValue f of
                          None \<Rightarrow> (Some v, [c, d, e]) # findArgEscapes (f # fs)
                        | Some w \<Rightarrow> (Some (10 * v + w), [c, d, e, f]) # findArgEscapes fs))))
      else
        (case digitValue d of
           None \<Rightarrow> (None, [c]) # findArgEscapes (d # cs)
         | Some v \<Rightarrow>
             (case cs of
                [] \<Rightarrow> [(Some v, [c, d])]
              | f # fs \<Rightarrow>
                  (case digitValue f of
                     None \<Rightarrow> (Some v, [c, d]) # findArgEscapes (f # fs)
                   | Some w \<Rightarrow> (Some (10 * v + w), [c, d, f]) # findArgEscapes fs))))"

definition qarg :: "string \<Rightarrow> string \<Rightarrow> string" where
  "qarg s a =
     (let pieces = findArgEscapes s; escapes = List.map_filter fst pieces
      in if escapes = [] then s
         else concat (map (\<lambda>(e, txt). if e = Some (Min (set escapes)) then a else txt) pieces))"

text \<open>The decimal digits of a number, as \<^verbatim>\<open>arg\<close> writes an integer that is not negative.\<close>

function decimal :: "nat \<Rightarrow> string" where
  "decimal n =
     (if n < 10 then [char_of (48 + n)] else decimal (n div 10) @ [char_of (48 + n mod 10)])"
  by pat_completeness auto
termination
  by (relation "measure (\<lambda>n. n)") auto

declare decimal.simps [simp del]

subsection \<open>Sending\<close>

text \<open>
  \<^verbatim>\<open>sendMessage\<close>: the packet is the message as the codec encodes it; the trace keeps the
  message itself, with the socket it was written to, the destination and the port.
\<close>

definition sendMessage :: "mdns_message \<Rightarrow> mdns_server \<Rightarrow> mdns_server" where
  "sendMessage message s =
     (let s1 = (if m_protocol message = IPv4
                then emit (WriteDatagram IPv4 message (m_address message) (m_port message)) s
                else s)
      in if m_protocol message = IPv6
         then emit (WriteDatagram IPv6 message (m_address message) (m_port message)) s1
         else s1)"

definition checkHostname :: "mdns_protocol \<Rightarrow> mdns_server \<Rightarrow> mdns_server" where
  "checkHostname p s =
     (let query = \<lparr>q_name = mHostname s, q_type = (if p = IPv4 then Mdns_A else Mdns_AAAA)\<rparr>;
          message = addQuery query
            (MdnsMessage\<lparr>m_address := (if p = IPv4 then Mdns_Ipv4Address else Mdns_Ipv6Address),
               m_protocol := p, m_port := Mdns_Port\<rparr>)
      in sendMessage message s)"

subsection \<open>\<^verbatim>\<open>generateRecord\<close>\<close>

text \<open>
  The three loops of \<^verbatim>\<open>generateRecord\<close>, innermost first. The scan of the addresses
  answers whether one of them has the family of the requested type. The loop over the
  entries of an interface ends in one of three ways: it returns the record, it leaves
  by \<^verbatim>\<open>break\<close> (the entry matched and the scan found nothing), or it runs to its end.
  After the last two the loop over the interfaces goes on with the next interface.
\<close>

fun scanAddresses :: "host_address list \<Rightarrow> 16 word \<Rightarrow> bool" where
  "scanAddresses [] ty = False"
| "scanAddresses (address # rest) ty =
     (if (protocol address = IPv4Protocol \<and> ty = Mdns_A) \<or>
         (protocol address = IPv6Protocol \<and> ty = Mdns_AAAA)
      then True else scanAddresses rest ty)"

datatype entry_loop = Returned mdns_record | Broke | Finished

fun scanEntries ::
  "string \<Rightarrow> host_address \<Rightarrow> 16 word \<Rightarrow> network_interface \<Rightarrow> network_address_entry list \<Rightarrow> entry_loop"
where
  "scanEntries hn address ty interface [] = Finished"
| "scanEntries hn address ty interface (entry # rest) =
     (if isInSubnet address (ip entry) (prefixLength entry) then
        (if scanAddresses (allAddresses interface) ty
         then Returned \<lparr>r_name = hn, r_type = ty, r_ttl = DefaultTtl, r_address = ip entry\<rparr>
         else Broke)
      else scanEntries hn address ty interface rest)"

fun scanInterfaces ::
  "string \<Rightarrow> host_address \<Rightarrow> 16 word \<Rightarrow> network_interface list \<Rightarrow> mdns_record option"
where
  "scanInterfaces hn address ty [] = None"
| "scanInterfaces hn address ty (interface # rest) =
     (case scanEntries hn address ty interface (addressEntries interface) of
        Returned r \<Rightarrow> Some r
      | Broke \<Rightarrow> scanInterfaces hn address ty rest
      | Finished \<Rightarrow> scanInterfaces hn address ty rest)"

text \<open>\<open>Some r\<close>: the function returns true and has written \<open>r\<close>; \<open>None\<close>: it returns false.\<close>

definition generateRecord ::
  "host \<Rightarrow> mdns_server \<Rightarrow> host_address \<Rightarrow> 16 word \<Rightarrow> mdns_record option"
where
  "generateRecord h s address ty = scanInterfaces (mHostname s) address ty (allInterfaces h)"

subsection \<open>\<^verbatim>\<open>bindSocket\<close> and the rebind cycle \<^verbatim>\<open>onSocketTimeout\<close>\<close>

text \<open>
  \<^verbatim>\<open>bindSocket\<close>: the state of the socket afterwards and the errors signalled, in
  order. Under \<^verbatim>\<open>Q_OS_UNIX\<close> the bind with \<^verbatim>\<open>ShareAddress\<close> comes first, and only when
  it fails the socket option and the second bind; elsewhere the second bind alone.
\<close>

definition bindSocket :: "bool \<Rightarrow> bind_outcome \<Rightarrow> socket_state \<times> bind_error list" where
  "bindSocket unix out =
     (if unix then
        (if share_ok out then (BoundState, [])
         else
           (let e1 = (if setsockopt_ok out then [] else [SetsockoptError])
            in if reuse_ok out then (BoundState, e1) else (UnconnectedState, e1 @ [BindError])))
      else if reuse_ok out then (BoundState, []) else (UnconnectedState, [BindError]))"

definition bindIpv4Socket :: "host \<Rightarrow> mdns_server \<Rightarrow> mdns_server" where
  "bindIpv4Socket h s =
     (case bindSocket (q_os_unix h) (bind_ipv4 h) of
        (st, errs) \<Rightarrow> s\<lparr>mIpv4Socket := st, trace := trace s @ map EmitError errs\<rparr>)"

definition bindIpv6Socket :: "host \<Rightarrow> mdns_server \<Rightarrow> mdns_server" where
  "bindIpv6Socket h s =
     (case bindSocket (q_os_unix h) (bind_ipv6 h) of
        (st, errs) \<Rightarrow> s\<lparr>mIpv6Socket := st, trace := trace s @ map EmitError errs\<rparr>)"

text \<open>The loop that sets \<^verbatim>\<open>ipv4Address\<close> and \<^verbatim>\<open>ipv6Address\<close> for one interface.\<close>

fun addressFamilies :: "host_address list \<Rightarrow> bool \<times> bool \<Rightarrow> bool \<times> bool" where
  "addressFamilies [] flags = flags"
| "addressFamilies (address # rest) (ipv4Address, ipv6Address) =
     addressFamilies rest
       (ipv4Address \<or> protocol address = IPv4Protocol,
        ipv6Address \<or> protocol address = IPv6Protocol)"

text \<open>The groups joined on one interface, in the order of the calls.\<close>

definition joinInterface :: "bool \<Rightarrow> bool \<Rightarrow> network_interface \<Rightarrow> effect list" where
  "joinInterface ipv4Bound ipv6Bound interface =
     (if canMulticast interface then
        (case addressFamilies (allAddresses interface) (False, False) of
           (ipv4Address, ipv6Address) \<Rightarrow>
             (if ipv4Bound \<and> ipv6Address
              then [JoinMulticastGroup IPv4 Mdns_Ipv4Address interface] else []) @
             (if ipv6Bound \<and> ipv6Address
              then [JoinMulticastGroup IPv6 Mdns_Ipv6Address interface] else []))
      else [])"

fun joinGroups :: "bool \<Rightarrow> bool \<Rightarrow> network_interface list \<Rightarrow> effect list" where
  "joinGroups ipv4Bound ipv6Bound [] = []"
| "joinGroups ipv4Bound ipv6Bound (interface # rest) =
     joinInterface ipv4Bound ipv6Bound interface @ joinGroups ipv4Bound ipv6Bound rest"

definition beginChecking :: "host \<Rightarrow> mdns_server \<Rightarrow> mdns_server" where
  "beginChecking h s =
     startTimer HostnameTimer (2 * 1000)
       (checkHostname IPv6
         (checkHostname IPv4
           (s\<lparr>mHostname := localHostName h @ ''.local.'', mHostnameSuffix := 2\<rparr>)))"

definition onSocketTimeout :: "host \<Rightarrow> mdns_server \<Rightarrow> mdns_server" where
  "onSocketTimeout h s =
     (let s1 = (if mIpv4Socket s \<noteq> BoundState then bindIpv4Socket h s else s);
          s2 = (if mIpv6Socket s1 \<noteq> BoundState then bindIpv6Socket h s1 else s1);
          ipv4Bound = (mIpv4Socket s2 = BoundState);
          ipv6Bound = (mIpv6Socket s2 = BoundState);
          s3 = (if ipv4Bound \<or> ipv6Bound then
                  (let s4 = s2\<lparr>trace := trace s2 @ joinGroups ipv4Bound ipv6Bound (allInterfaces h)\<rparr>
                   in if \<not> mHostnameConfirmed s4 then beginChecking h s4 else s4)
                else s2)
      in startTimer SocketTimer (60 * 1000) s3)"

definition onHostnameTimeout :: "mdns_server \<Rightarrow> mdns_server" where
  "onHostnameTimeout s = s\<lparr>mHostnameConfirmed := True\<rparr>"

subsection \<open>\<^verbatim>\<open>onMessageReceived\<close> and \<^verbatim>\<open>onReadyRead\<close>\<close>

text \<open>The loop over the queries, which sets \<^verbatim>\<open>queryA\<close> and \<^verbatim>\<open>queryAAAA\<close>.\<close>

fun scanQueries :: "string \<Rightarrow> mdns_query list \<Rightarrow> bool \<times> bool \<Rightarrow> bool \<times> bool" where
  "scanQueries hn [] flags = flags"
| "scanQueries hn (query # rest) (queryA, queryAAAA) =
     (if q_name query = hn
      then scanQueries hn rest (queryA \<or> q_type query = Mdns_A, queryAAAA \<or> q_type query = Mdns_AAAA)
      else scanQueries hn rest (queryA, queryAAAA))"

definition buildReply :: "host \<Rightarrow> mdns_server \<Rightarrow> mdns_message \<Rightarrow> bool \<Rightarrow> bool \<Rightarrow> mdns_message" where
  "buildReply h s message queryA queryAAAA =
     (let reply0 = reply message;
          reply1 = (if queryA then
                      (case generateRecord h s (m_address message) Mdns_A of
                         Some ipv4Record \<Rightarrow> addRecord ipv4Record reply0
                       | None \<Rightarrow> reply0)
                    else reply0)
      in if queryAAAA then
           (case generateRecord h s (m_address message) Mdns_AAAA of
              Some ipv6Record \<Rightarrow> addRecord ipv6Record reply1
            | None \<Rightarrow> reply1)
         else reply1)"

definition onMessageReceived :: "host \<Rightarrow> mdns_message \<Rightarrow> mdns_server \<Rightarrow> mdns_server" where
  "onMessageReceived h message s =
     (if \<not> isResponse message then
        (case scanQueries (mHostname s) (queries message) (False, False) of
           (queryA, queryAAAA) \<Rightarrow>
             (if queryA \<or> queryAAAA then
                (let r = buildReply h s message queryA queryAAAA
                 in if length (records r) \<noteq> 0 then sendMessage r s else s)
              else s))
      else s)"

text \<open>
  The rename on a conflict: the suffix is formatted from the counter before the
  counter is incremented.
\<close>

definition renameHost :: "host \<Rightarrow> mdns_server \<Rightarrow> mdns_server" where
  "renameHost h s =
     (let suffix = qarg ''-%1'' (decimal (mHostnameSuffix s))
      in s\<lparr>mHostnameSuffix := mHostnameSuffix s + 1,
            mHostname := qarg (qarg ''%1%2.local.'' (localHostName h)) suffix\<rparr>)"

text \<open>The loop over the records of a response while the name is not confirmed.\<close>

fun scanRecords :: "host \<Rightarrow> mdns_record list \<Rightarrow> mdns_server \<Rightarrow> mdns_server" where
  "scanRecords h [] s = s"
| "scanRecords h (record # rest) s =
     (if (r_type record = Mdns_A \<or> r_type record = Mdns_AAAA) \<and>
         r_name record = mHostname s \<and> r_ttl record \<noteq> 0
      then checkHostname IPv6 (checkHostname IPv4 (renameHost h s))
      else scanRecords h rest s)"

text \<open>
  \<^verbatim>\<open>onReadyRead\<close> takes what the socket delivers: the result of the codec's
  \<^verbatim>\<open>Mdns::fromPacket\<close> on the datagram (\<open>None\<close> when it does not decode), the sender's
  address and port.
\<close>

definition onReadyRead ::
  "host \<Rightarrow> mdns_message option \<Rightarrow> host_address \<Rightarrow> 16 word \<Rightarrow> mdns_server \<Rightarrow> mdns_server"
where
  "onReadyRead h decoded address port s =
     (case decoded of
        None \<Rightarrow> s
      | Some m \<Rightarrow>
          (let message = m\<lparr>m_address := address,
                 m_protocol := (if protocol address = IPv4Protocol then IPv4 else IPv6),
                 m_port := port\<rparr>
           in if mHostnameConfirmed s then onMessageReceived h message s
              else if isResponse message then scanRecords h (records message) s
              else s))"

text \<open>The events of the reactor: a single-shot timer stops when it fires.\<close>

datatype event =
    SocketTimerFires host
  | HostnameTimerFires
  | Datagram host "mdns_message option" host_address "16 word"

fun handle :: "event \<Rightarrow> mdns_server \<Rightarrow> mdns_server" where
  "handle (SocketTimerFires h) s = onSocketTimeout h (s\<lparr>mSocketTimer := None\<rparr>)"
| "handle HostnameTimerFires s = onHostnameTimeout (s\<lparr>mHostnameTimer := None\<rparr>)"
| "handle (Datagram h decoded address port) s = onReadyRead h decoded address port s"

text \<open>
  The constructor: the flag is false, the timers are stopped, and the first rebind
  cycle runs at once. The name is empty; the counter has no initial value in the
  constructor and is taken as a parameter.
\<close>

definition MdnsServer :: "host \<Rightarrow> nat \<Rightarrow> mdns_server" where
  "MdnsServer h n =
     onSocketTimeout h
       \<lparr>mHostname = [], mHostnameSuffix = n, mHostnameConfirmed = False,
        mIpv4Socket = UnconnectedState, mIpv6Socket = UnconnectedState,
        mSocketTimer = None, mHostnameTimer = None, trace = []\<rparr>"

subsection \<open>Notions used to state the properties\<close>

text \<open>What a handler added to the trace: the calls made between two states.\<close>

definition newCalls :: "mdns_server \<Rightarrow> mdns_server \<Rightarrow> effect list" where
  "newCalls s s' = drop (length (trace s)) (trace s')"

text \<open>
  A probe for the name \<open>hn\<close> on the family \<open>p\<close>: a message with one query and no
  record, written to the socket of the family, for the group of the family.
\<close>

definition probe :: "mdns_protocol \<Rightarrow> string \<Rightarrow> effect" where
  "probe p hn =
     WriteDatagram p
       \<lparr>m_address = (if p = IPv4 then Mdns_Ipv4Address else Mdns_Ipv6Address),
        m_protocol = p, m_port = Mdns_Port, isResponse = False,
        queries = [\<lparr>q_name = hn, q_type = (if p = IPv4 then Mdns_A else Mdns_AAAA)\<rparr>],
        records = []\<rparr>
       (if p = IPv4 then Mdns_Ipv4Address else Mdns_Ipv6Address) Mdns_Port"

text \<open>
  A record disqualifies the name \<open>hn\<close>, and a message is a conflict for the server,
  as the condition of \<^verbatim>\<open>onReadyRead\<close> has it.
\<close>

definition disqualifies :: "string \<Rightarrow> mdns_record \<Rightarrow> bool" where
  "disqualifies hn r = ((r_type r = Mdns_A \<or> r_type r = Mdns_AAAA) \<and> r_name r = hn \<and> r_ttl r \<noteq> 0)"

definition conflictResponse :: "mdns_server \<Rightarrow> mdns_message \<Rightarrow> bool" where
  "conflictResponse s m = (isResponse m \<and> list_ex (disqualifies (mHostname s)) (records m))"




text \<open>A run of events of any kind.\<close>

fun run :: "event list \<Rightarrow> mdns_server \<Rightarrow> mdns_server" where
  "run [] s = s"
| "run (e # es) s = run es (handle e s)"

text \<open>An address list holds an address of a family; an entry's subnet holds an address.\<close>

definition hasAddress :: "network_layer_protocol \<Rightarrow> host_address list \<Rightarrow> bool" where
  "hasAddress p as = list_ex (\<lambda>a. protocol a = p) as"

definition subnetMatches :: "host_address \<Rightarrow> network_address_entry \<Rightarrow> bool" where
  "subnetMatches a e = isInSubnet a (ip e) (prefixLength e)"

definition interfaceMatches :: "host_address \<Rightarrow> network_interface \<Rightarrow> bool" where
  "interfaceMatches a i = list_ex (subnetMatches a) (addressEntries i)"

text \<open>A message asks for the record of type \<open>ty\<close> of the name \<open>hn\<close>.\<close>

definition asksFor :: "string \<Rightarrow> 16 word \<Rightarrow> mdns_message \<Rightarrow> bool" where
  "asksFor hn ty m = list_ex (\<lambda>q. q_name q = hn \<and> q_type q = ty) (queries m)"

definition answerable :: "host \<Rightarrow> mdns_server \<Rightarrow> mdns_message \<Rightarrow> host_address \<Rightarrow> 16 word \<Rightarrow> bool" where
  "answerable h s m a ty = (asksFor (mHostname s) ty m \<and> generateRecord h s a ty \<noteq> None)"

text \<open>
  The place markers of a string, by their numbers, as \<^verbatim>\<open>QString::arg\<close> finds them.
\<close>

definition placeMarkers :: "string \<Rightarrow> nat list" where
  "placeMarkers s = List.map_filter fst (findArgEscapes s)"



subsection \<open>A laptop on a home network, and the messages it may see\<close>

definition wlan0 :: network_interface where
  "wlan0 = \<lparr>if_name = ''wlan0'', canMulticast = True,
     addressEntries = [\<lparr>ip = Ipv4Host 0xC0A8010A, prefixLength = 24\<rparr>,
                       \<lparr>ip = Ipv6Host 0xFE800000000000000000000000000001, prefixLength = 64\<rparr>],
     allAddresses = [Ipv4Host 0xC0A8010A, Ipv6Host 0xFE800000000000000000000000000001]\<rparr>"

definition laptop :: host where
  "laptop = \<lparr>localHostName = ''laptop'', allInterfaces = [wlan0], q_os_unix = True,
     bind_ipv4 = \<lparr>share_ok = True, setsockopt_ok = True, reuse_ok = True\<rparr>,
     bind_ipv6 = \<lparr>share_ok = True, setsockopt_ok = True, reuse_ok = True\<rparr>\<rparr>"

text \<open>A neighbour at 192.168.1.20 that answers for a name, with a live record or a goodbye.\<close>

definition neighbour :: host_address where
  "neighbour = Ipv4Host 0xC0A80114"

definition claimOf :: "string \<Rightarrow> 32 word \<Rightarrow> mdns_record" where
  "claimOf hn ttl = \<lparr>r_name = hn, r_type = Mdns_A, r_ttl = ttl, r_address = neighbour\<rparr>"

definition responseWith :: "mdns_record list \<Rightarrow> mdns_message" where
  "responseWith rs = MdnsMessage\<lparr>isResponse := True, records := rs\<rparr>"

definition queryFor :: "string \<Rightarrow> 16 word \<Rightarrow> mdns_message" where
  "queryFor hn ty = MdnsMessage\<lparr>queries := [\<lparr>q_name = hn, q_type = ty\<rparr>]\<rparr>"

text \<open>The laptop's server as constructed (it probes), and after the probe window.\<close>

definition probing :: mdns_server where
  "probing = MdnsServer laptop 0"

definition confirmed :: mdns_server where
  "confirmed = handle HostnameTimerFires probing"

text \<open>Two conflicts in a row; the first message holds two disqualifying records.\<close>

definition firstConflict :: mdns_message where
  "firstConflict = responseWith [claimOf ''laptop.local.'' 120, claimOf ''laptop.local.'' 4500]"



text \<open>A response that withdraws the laptop's name (TTL 0) and claims another name.\<close>

definition goodbye :: mdns_message where
  "goodbye = responseWith [claimOf ''laptop.local.'' 0, claimOf ''printer.local.'' 120]"

text \<open>What may follow the confirmation: a late claim of the name, a rebind, a query.\<close>

definition laterEvents :: "event list" where
  "laterEvents =
     [Datagram laptop (Some (responseWith [claimOf ''laptop.local.'' 120])) neighbour 5353,
      SocketTimerFires laptop,
      Datagram laptop (Some (queryFor ''laptop.local.'' Mdns_A)) neighbour 5353,
      HostnameTimerFires,
      Datagram laptop None neighbour 5353]"

text \<open>The server after the first conflict, still probing.\<close>

definition afterConflict :: mdns_server where
  "afterConflict = onReadyRead laptop (Some firstConflict) neighbour 5353 probing"

text \<open>
  A neighbour on the IPv6 link, and a wired interface with an IPv4 address only, alone
  on its host. Then a host with two interfaces, the first with an IPv4 address only;
  \<^verbatim>\<open>allAddresses\<close> gives for both the addresses of the whole host.
\<close>

definition neighbour6 :: host_address where
  "neighbour6 = Ipv6Host 0xFE800000000000000000000000000099"

definition eth0 :: network_interface where
  "eth0 = \<lparr>if_name = ''eth0'', canMulticast = True,
     addressEntries = [\<lparr>ip = Ipv4Host 0xC0A8010A, prefixLength = 24\<rparr>],
     allAddresses = [Ipv4Host 0xC0A8010A]\<rparr>"

definition wired :: host where
  "wired = laptop\<lparr>allInterfaces := [eth0]\<rparr>"

definition wholeHost :: "host_address list" where
  "wholeHost = [Ipv4Host 0xC0A8010A, Ipv4Host 0xC0A8010B, Ipv6Host 0xFE800000000000000000000000000002]"

definition eth1 :: network_interface where
  "eth1 = \<lparr>if_name = ''eth1'', canMulticast = True,
     addressEntries = [\<lparr>ip = Ipv4Host 0xC0A8010B, prefixLength = 24\<rparr>,
                       \<lparr>ip = Ipv6Host 0xFE800000000000000000000000000002, prefixLength = 64\<rparr>],
     allAddresses = wholeHost\<rparr>"

definition twoLinksWhole :: host where
  "twoLinksWhole = laptop\<lparr>allInterfaces := [eth0\<lparr>allAddresses := wholeHost\<rparr>, eth1]\<rparr>"




section \<open>Properties\<close>

subsection \<open>What each operation leaves alone\<close>

lemma sendMessage_eq:
  "sendMessage m s = emit (WriteDatagram (m_protocol m) m (m_address m) (m_port m)) s"
  by (cases "m_protocol m") (simp_all add: sendMessage_def)

lemma emit_fields [simp]:
  "mHostname (emit e s) = mHostname s"
  "mHostnameSuffix (emit e s) = mHostnameSuffix s"
  "mHostnameConfirmed (emit e s) = mHostnameConfirmed s"
  "mIpv4Socket (emit e s) = mIpv4Socket s"
  "mIpv6Socket (emit e s) = mIpv6Socket s"
  "mSocketTimer (emit e s) = mSocketTimer s"
  "mHostnameTimer (emit e s) = mHostnameTimer s"
  "trace (emit e s) = trace s @ [e]"
  by (simp_all add: emit_def)

lemma checkHostname_eq: "checkHostname p s = emit (probe p (mHostname s)) s"
  by (simp add: checkHostname_def sendMessage_eq Let_def MdnsMessage_def addQuery_def probe_def)

lemma startTimer_fields [simp]:
  "mHostname (startTimer t ms s) = mHostname s"
  "mHostnameSuffix (startTimer t ms s) = mHostnameSuffix s"
  "mHostnameConfirmed (startTimer t ms s) = mHostnameConfirmed s"
  "mIpv4Socket (startTimer t ms s) = mIpv4Socket s"
  "mIpv6Socket (startTimer t ms s) = mIpv6Socket s"
  "trace (startTimer t ms s) = trace s @ [TimerStart t ms]"
  by (simp_all add: startTimer_def split: timer.splits)

lemma startTimer_timers [simp]:
  "mHostnameTimer (startTimer HostnameTimer ms s) = Some ms"
  "mHostnameTimer (startTimer SocketTimer ms s) = mHostnameTimer s"
  "mSocketTimer (startTimer SocketTimer ms s) = Some ms"
  "mSocketTimer (startTimer HostnameTimer ms s) = mSocketTimer s"
  by (simp_all add: startTimer_def)

lemma bindIpv4Socket_fields [simp]:
  "mHostname (bindIpv4Socket h s) = mHostname s"
  "mHostnameSuffix (bindIpv4Socket h s) = mHostnameSuffix s"
  "mHostnameConfirmed (bindIpv4Socket h s) = mHostnameConfirmed s"
  "mIpv6Socket (bindIpv4Socket h s) = mIpv6Socket s"
  "mSocketTimer (bindIpv4Socket h s) = mSocketTimer s"
  "mHostnameTimer (bindIpv4Socket h s) = mHostnameTimer s"
  by (simp_all add: bindIpv4Socket_def split: prod.splits)

lemma bindIpv6Socket_fields [simp]:
  "mHostname (bindIpv6Socket h s) = mHostname s"
  "mHostnameSuffix (bindIpv6Socket h s) = mHostnameSuffix s"
  "mHostnameConfirmed (bindIpv6Socket h s) = mHostnameConfirmed s"
  "mIpv4Socket (bindIpv6Socket h s) = mIpv4Socket s"
  "mSocketTimer (bindIpv6Socket h s) = mSocketTimer s"
  "mHostnameTimer (bindIpv6Socket h s) = mHostnameTimer s"
  by (simp_all add: bindIpv6Socket_def split: prod.splits)

lemma onMessageReceived_fields:
  "mHostname (onMessageReceived h m s) = mHostname s"
  "mHostnameSuffix (onMessageReceived h m s) = mHostnameSuffix s"
  "mHostnameConfirmed (onMessageReceived h m s) = mHostnameConfirmed s"
  "mHostnameTimer (onMessageReceived h m s) = mHostnameTimer s"
  by (simp_all add: onMessageReceived_def sendMessage_eq Let_def split: prod.splits)

lemma onSocketTimeout_confirmed:
  assumes "mHostnameConfirmed s"
  shows "mHostname (onSocketTimeout h s) = mHostname s"
    and "mHostnameSuffix (onSocketTimeout h s) = mHostnameSuffix s"
    and "mHostnameConfirmed (onSocketTimeout h s)"
    and "mHostnameTimer (onSocketTimeout h s) = mHostnameTimer s"
  using assms by (simp_all add: onSocketTimeout_def Let_def)

lemma handle_confirmed:
  assumes "mHostnameConfirmed s"
  shows "mHostname (handle e s) = mHostname s \<and> mHostnameSuffix (handle e s) = mHostnameSuffix s
    \<and> mHostnameConfirmed (handle e s)"
proof (cases e)
  case (SocketTimerFires h)
  with assms show ?thesis by (simp add: onSocketTimeout_confirmed)
next
  case HostnameTimerFires
  with assms show ?thesis by (simp add: onHostnameTimeout_def)
next
  case (Datagram h decoded address port)
  with assms show ?thesis
    by (simp add: onReadyRead_def Let_def onMessageReceived_fields split: option.splits)
qed



lemma digitValue_percent [simp]: "digitValue CHR ''%'' = None"
  by (simp add: digitValue_def)

text \<open>The equations of \<open>findArgEscapes\<close>, one for each way a piece begins.\<close>

lemma fae_plain: "c \<noteq> CHR ''%'' \<Longrightarrow> findArgEscapes (c # cs) = (None, [c]) # findArgEscapes cs"
  by (cases cs) simp_all

lemma fae_percent_end: "findArgEscapes ''%'' = [(None, ''%'')]"
  by simp

lemma fae_percent_nondigit:
  "d \<noteq> CHR ''L'' \<Longrightarrow> digitValue d = None \<Longrightarrow>
   findArgEscapes (CHR ''%'' # d # cs) = (None, ''%'') # findArgEscapes (d # cs)"
  by simp

lemma fae_percent_digit_end:
  "d \<noteq> CHR ''L'' \<Longrightarrow> digitValue d = Some v \<Longrightarrow>
   findArgEscapes [CHR ''%'', d] = [(Some v, [CHR ''%'', d])]"
  by simp

lemma fae_percent_digit_nondigit:
  "d \<noteq> CHR ''L'' \<Longrightarrow> digitValue d = Some v \<Longrightarrow> digitValue f = None \<Longrightarrow>
   findArgEscapes (CHR ''%'' # d # f # fs) = (Some v, [CHR ''%'', d]) # findArgEscapes (f # fs)"
  by simp

lemma fae_percent_digit_digit:
  "d \<noteq> CHR ''L'' \<Longrightarrow> digitValue d = Some v \<Longrightarrow> digitValue f = Some w \<Longrightarrow>
   findArgEscapes (CHR ''%'' # d # f # fs) = (Some (10 * v + w), [CHR ''%'', d, f]) # findArgEscapes fs"
  by simp

lemma fae_L_end: "findArgEscapes ''%L'' = [(None, ''%L'')]"
  by simp

lemma fae_L_nondigit:
  "digitValue e = None \<Longrightarrow>
   findArgEscapes (CHR ''%'' # CHR ''L'' # e # es) = (None, ''%L'') # findArgEscapes (e # es)"
  by simp

lemma fae_L_digit_end:
  "digitValue e = Some v \<Longrightarrow>
   findArgEscapes [CHR ''%'', CHR ''L'', e] = [(Some v, [CHR ''%'', CHR ''L'', e])]"
  by simp

lemma fae_L_digit_nondigit:
  "digitValue e = Some v \<Longrightarrow> digitValue f = None \<Longrightarrow>
   findArgEscapes (CHR ''%'' # CHR ''L'' # e # f # fs) =
     (Some v, [CHR ''%'', CHR ''L'', e]) # findArgEscapes (f # fs)"
  by simp

lemma fae_L_digit_digit:
  "digitValue e = Some v \<Longrightarrow> digitValue f = Some w \<Longrightarrow>
   findArgEscapes (CHR ''%'' # CHR ''L'' # e # f # fs) =
     (Some (10 * v + w), [CHR ''%'', CHR ''L'', e, f]) # findArgEscapes fs"
  by simp

text \<open>
  One step of the scan: the first piece and the rest, also when a place marker
  follows the string.
\<close>

lemma fae_step:
  assumes "xs \<noteq> []"
  shows "\<exists>t zs. length zs < length xs \<and> xs = snd t @ zs \<and>
           findArgEscapes xs = t # findArgEscapes zs \<and>
           (\<forall>ys. findArgEscapes (xs @ CHR ''%'' # ys) = t # findArgEscapes (zs @ CHR ''%'' # ys))"
proof -
  from assms obtain c cs where xs: "xs = c # cs" by (cases xs) auto
  show ?thesis
  proof (cases "c = CHR ''%''")
    case False
    with xs show ?thesis
      by (intro exI [of _ "(None, [c])"] exI [of _ cs]) (simp add: fae_plain)
  next
    case pc: True
    show ?thesis
    proof (cases cs)
      case Nil
      with xs pc show ?thesis
        by (intro exI [of _ "(None, ''%'')"] exI [of _ "[]"]) (simp add: fae_percent_nondigit)
    next
      case cs: (Cons d ds)
      show ?thesis
      proof (cases "d = CHR ''L''")
        case dl: True
        show ?thesis
        proof (cases ds)
          case Nil
          with xs pc cs dl show ?thesis
            by (intro exI [of _ "(None, ''%L'')"] exI [of _ "[]"]) (simp add: fae_L_nondigit)
        next
          case ds: (Cons e es)
          show ?thesis
          proof (cases "digitValue e")
            case None
            with xs pc cs dl ds show ?thesis
              by (intro exI [of _ "(None, ''%L'')"] exI [of _ "e # es"]) (simp add: fae_L_nondigit)
          next
            case ev: (Some v)
            show ?thesis
            proof (cases es)
              case Nil
              with xs pc cs dl ds ev show ?thesis
                by (intro exI [of _ "(Some v, [CHR ''%'', CHR ''L'', e])"] exI [of _ "[]"])
                   (simp add: fae_L_digit_nondigit)
            next
              case es: (Cons f fs)
              show ?thesis
              proof (cases "digitValue f")
                case None
                with xs pc cs dl ds ev es show ?thesis
                  by (intro exI [of _ "(Some v, [CHR ''%'', CHR ''L'', e])"] exI [of _ "f # fs"])
                     (simp add: fae_L_digit_nondigit)
              next
                case (Some w)
                with xs pc cs dl ds ev es show ?thesis
                  by (intro exI [of _ "(Some (10 * v + w), [CHR ''%'', CHR ''L'', e, f])"] exI [of _ fs])
                     (simp add: fae_L_digit_digit)
              qed
            qed
          qed
        qed
      next
        case dl: False
        show ?thesis
        proof (cases "digitValue d")
          case None
          with xs pc cs dl show ?thesis
            by (intro exI [of _ "(None, ''%'')"] exI [of _ "d # ds"]) (simp add: fae_percent_nondigit)
        next
          case dv: (Some v)
          show ?thesis
          proof (cases ds)
            case Nil
            with xs pc cs dl dv show ?thesis
              by (intro exI [of _ "(Some v, [CHR ''%'', d])"] exI [of _ "[]"])
                 (simp add: fae_percent_digit_nondigit)
          next
            case ds: (Cons f fs)
            show ?thesis
            proof (cases "digitValue f")
              case None
              with xs pc cs dl dv ds show ?thesis
                by (intro exI [of _ "(Some v, [CHR ''%'', d])"] exI [of _ "f # fs"])
                   (simp add: fae_percent_digit_nondigit)
            next
              case (Some w)
              with xs pc cs dl dv ds show ?thesis
                by (intro exI [of _ "(Some (10 * v + w), [CHR ''%'', d, f])"] exI [of _ fs])
                   (simp add: fae_percent_digit_digit)
            qed
          qed
        qed
      qed
    qed
  qed
qed

lemma findArgEscapes_append:
  "findArgEscapes (xs @ CHR ''%'' # ys) = findArgEscapes xs @ findArgEscapes (CHR ''%'' # ys)"
proof (induction xs rule: length_induct)
  case (1 xs)
  show ?case
  proof (cases "xs = []")
    case True
    then show ?thesis by simp
  next
    case False
    from fae_step [OF False] obtain t zs where
      "length zs < length xs" "findArgEscapes xs = t # findArgEscapes zs"
      "findArgEscapes (xs @ CHR ''%'' # ys) = t # findArgEscapes (zs @ CHR ''%'' # ys)"
      by blast
    with 1 show ?thesis by simp
  qed
qed

lemma concat_findArgEscapes: "concat (map snd (findArgEscapes xs)) = xs"
proof (induction xs rule: length_induct)
  case (1 xs)
  show ?case
  proof (cases "xs = []")
    case True
    then show ?thesis by simp
  next
    case False
    from fae_step [OF False] obtain t zs where
      "length zs < length xs" "xs = snd t @ zs" "findArgEscapes xs = t # findArgEscapes zs"
      by blast
    with 1 show ?thesis by simp
  qed
qed

lemma map_filter_app: "List.map_filter f (xs @ ys) = List.map_filter f xs @ List.map_filter f ys"
  by (simp add: List.map_filter_def)

lemma keep_higher_markers:
  "list_all (\<lambda>n. 2 < n) (List.map_filter fst toks) \<Longrightarrow>
   map (\<lambda>(e, txt). if e = Some (2::nat) then a else txt) toks = map snd toks"
proof (induction toks)
  case Nil
  then show ?case by simp
next
  case (Cons t toks)
  obtain e body where t: "t = (e, body)" by (cases t)
  from Cons t show ?case by (cases e) (auto simp: List.map_filter_simps)
qed

lemma template_tail:
  "findArgEscapes ''%2.local.'' =
     (Some 2, ''%2'') # map (\<lambda>c. (None, [c])) ''.local.''"
  by (simp add: digitValue_def)

lemma qarg_template2:
  assumes "list_all (\<lambda>n. 2 < n) (placeMarkers hn)"
  shows "qarg (hn @ ''%2.local.'') sfx = hn @ sfx @ ''.local.''"
proof -
  let ?ms = "placeMarkers hn"
  have p: "findArgEscapes (hn @ ''%2.local.'') =
      findArgEscapes hn @ (Some 2, ''%2'') # map (\<lambda>c. (None, [c])) ''.local.''"
    using findArgEscapes_append [of hn "''2.local.''"] by (simp only: template_tail)
  have e: "List.map_filter fst (findArgEscapes (hn @ ''%2.local.'')) = ?ms @ [2]"
    by (simp add: p map_filter_app placeMarkers_def List.map_filter_simps)
  have "finite (set ?ms)" by simp
  have m: "Min (set (?ms @ [2])) = 2"
  proof (rule Min_eqI)
    show "finite (set (?ms @ [2]))" by simp
  next
    fix y assume "y \<in> set (?ms @ [2])"
    with assms show "2 \<le> y" by (auto simp: list_all_iff)
  next
    show "2 \<in> set (?ms @ [2])" by simp
  qed
  have k: "map (\<lambda>(e, txt). if e = Some 2 then sfx else txt) (findArgEscapes hn) =
      map snd (findArgEscapes hn)"
    using assms by (simp add: keep_higher_markers placeMarkers_def)
  show ?thesis
    unfolding qarg_def Let_def e m
    by (simp add: p k concat_findArgEscapes)
qed

lemma qarg_template1: "qarg ''%1%2.local.'' hn = hn @ ''%2.local.''"
  by (simp add: qarg_def digitValue_def List.map_filter_simps)

lemma qarg_suffix: "qarg ''-%1'' d = CHR ''-'' # d"
  by (simp add: qarg_def digitValue_def List.map_filter_simps)




lemma digit_char: "k < 10 \<Longrightarrow> (of_char (char_of (48 + k) :: char) :: nat) = 48 + k"
  by simp







lemma renameHost_name:
  "list_all (\<lambda>n. 2 < n) (placeMarkers (localHostName h)) \<Longrightarrow>
   mHostname (renameHost h s) = localHostName h @ ''-'' @ decimal (mHostnameSuffix s) @ ''.local.''"
  by (simp add: renameHost_def Let_def qarg_template1 qarg_template2 qarg_suffix)

lemma renameHost_fields [simp]:
  "mHostnameSuffix (renameHost h s) = mHostnameSuffix s + 1"
  "mHostnameConfirmed (renameHost h s) = mHostnameConfirmed s"
  "mHostnameTimer (renameHost h s) = mHostnameTimer s"
  "mSocketTimer (renameHost h s) = mSocketTimer s"
  "trace (renameHost h s) = trace s"
  by (simp_all add: renameHost_def Let_def)

lemma scanRecords_conflict:
  "list_ex (disqualifies (mHostname s)) rs \<Longrightarrow>
   scanRecords h rs s = checkHostname IPv6 (checkHostname IPv4 (renameHost h s))"
  by (induction rs) (auto simp: disqualifies_def)

lemma scanRecords_quiet:
  "\<not> list_ex (disqualifies (mHostname s)) rs \<Longrightarrow> scanRecords h rs s = s"
  by (induction rs) (auto simp: disqualifies_def)

lemma onReadyRead_conflict:
  assumes "\<not> mHostnameConfirmed s" and "conflictResponse s m"
  shows "onReadyRead h (Some m) a p s =
     emit (probe IPv6 (mHostname (renameHost h s)))
       (emit (probe IPv4 (mHostname (renameHost h s))) (renameHost h s))"
  using assms
  by (simp add: onReadyRead_def Let_def conflictResponse_def scanRecords_conflict checkHostname_eq)

lemma onReadyRead_quiet:
  assumes "\<not> mHostnameConfirmed s" and "\<forall>m. decoded = Some m \<longrightarrow> \<not> conflictResponse s m"
  shows "onReadyRead h decoded a p s = s"
  using assms
  by (auto simp: onReadyRead_def Let_def conflictResponse_def scanRecords_quiet split: option.splits)


subsection \<open>The example evaluated\<close>

lemma consts_eval:
  "Mdns_A = 1" "Mdns_AAAA = 28" "Mdns_Port = 5353"
  by (simp_all add: Mdns_A_def Mdns_AAAA_def Mdns_Port_def)

lemma bind_laptop:
  "bindSocket True \<lparr>share_ok = True, setsockopt_ok = True, reuse_ok = True\<rparr> = (BoundState, [])"
  by (simp add: bindSocket_def)

lemma wlan0_families: "addressFamilies (allAddresses wlan0) (False, False) = (True, True)"
  by (simp add: wlan0_def)

lemma wlan0_multicast: "canMulticast wlan0"
  by (simp add: wlan0_def)

lemma probing_eq:
  "probing = \<lparr>mHostname = ''laptop.local.'', mHostnameSuffix = 2, mHostnameConfirmed = False,
      mIpv4Socket = BoundState, mIpv6Socket = BoundState,
      mSocketTimer = Some 60000, mHostnameTimer = Some 2000,
      trace = [JoinMulticastGroup IPv4 Mdns_Ipv4Address wlan0,
               JoinMulticastGroup IPv6 Mdns_Ipv6Address wlan0,
               probe IPv4 ''laptop.local.'', probe IPv6 ''laptop.local.'',
               TimerStart HostnameTimer 2000, TimerStart SocketTimer 60000]\<rparr>"
  by (simp add: probing_def MdnsServer_def onSocketTimeout_def Let_def bindIpv4Socket_def
      bindIpv6Socket_def laptop_def bind_laptop joinInterface_def wlan0_families wlan0_multicast
      beginChecking_def checkHostname_eq startTimer_def emit_def)

lemma probing_fields:
  "mHostname probing = ''laptop.local.''" "mHostnameSuffix probing = 2"
  "\<not> mHostnameConfirmed probing" "mHostnameTimer probing = Some 2000"
  by (simp_all add: probing_eq)

lemma decimal_digit: "n < 10 \<Longrightarrow> decimal n = [char_of (48 + n)]"
  by (simp add: decimal.simps)

lemma decimal_2: "decimal 2 = ''2''" by code_simp
lemma decimal_3: "decimal 3 = ''3''" by code_simp

lemma laptop_name: "localHostName laptop = ''laptop''" by (simp add: laptop_def)

lemma laptop_no_marker: "list_all (\<lambda>n. 2 < n) (placeMarkers (localHostName laptop))"
  by (simp add: laptop_name placeMarkers_def List.map_filter_simps)

lemma rename_laptop:
  "mHostnameSuffix s = 2 \<Longrightarrow> mHostname (renameHost laptop s) = ''laptop-2.local.''"
  "mHostnameSuffix s = 3 \<Longrightarrow> mHostname (renameHost laptop s) = ''laptop-3.local.''"
  by (simp_all add: renameHost_name [OF laptop_no_marker] laptop_name decimal_2 decimal_3)

lemma firstConflict_probing: "conflictResponse probing firstConflict"
  by (simp add: conflictResponse_def firstConflict_def responseWith_def MdnsMessage_def
      disqualifies_def claimOf_def probing_fields)

lemma after_firstConflict:
  "onReadyRead laptop (Some firstConflict) neighbour 5353 probing =
     emit (probe IPv6 ''laptop-2.local.'') (emit (probe IPv4 ''laptop-2.local.'') (renameHost laptop probing))"
  using onReadyRead_conflict [OF probing_fields(3) firstConflict_probing, of laptop neighbour 5353]
  by (simp add: rename_laptop probing_fields)


lemma confirmed_fields:
  "mHostnameConfirmed confirmed" "mHostname confirmed = ''laptop.local.''"
  "mHostnameSuffix confirmed = 2"
  by (simp_all add: confirmed_def onHostnameTimeout_def probing_fields)

lemma goodbye_no_conflict: "\<not> conflictResponse probing goodbye"
  by (simp add: conflictResponse_def goodbye_def responseWith_def MdnsMessage_def
      disqualifies_def claimOf_def probing_fields)

subsection \<open>The rebind cycle, the record generator, the responder\<close>

lemma renameHost_sockets [simp]:
  "mIpv4Socket (renameHost h s) = mIpv4Socket s"
  "mIpv6Socket (renameHost h s) = mIpv6Socket s"
  by (simp_all add: renameHost_def Let_def)

lemma bindIpv4Socket_trace:
  "trace (bindIpv4Socket h s) = trace s @ map EmitError (snd (bindSocket (q_os_unix h) (bind_ipv4 h)))"
  by (simp add: bindIpv4Socket_def split: prod.splits)

lemma bindIpv6Socket_trace:
  "trace (bindIpv6Socket h s) = trace s @ map EmitError (snd (bindSocket (q_os_unix h) (bind_ipv6 h)))"
  by (simp add: bindIpv6Socket_def split: prod.splits)

lemma beginChecking_fields:
  "mHostname (beginChecking h s) = localHostName h @ ''.local.''"
  "mHostnameSuffix (beginChecking h s) = 2"
  "mHostnameConfirmed (beginChecking h s) = mHostnameConfirmed s"
  "mHostnameTimer (beginChecking h s) = Some 2000"
  "mIpv4Socket (beginChecking h s) = mIpv4Socket s"
  "mIpv6Socket (beginChecking h s) = mIpv6Socket s"
  "trace (beginChecking h s) = trace s @
     [probe IPv4 (localHostName h @ ''.local.''), probe IPv6 (localHostName h @ ''.local.''),
      TimerStart HostnameTimer 2000]"
  by (simp_all add: beginChecking_def checkHostname_eq)

text \<open>The rebind cycle in one equation: what it adds to the trace.\<close>

lemma onSocketTimeout_sockets:
  "mIpv4Socket (onSocketTimeout h s) =
     (if mIpv4Socket s \<noteq> BoundState then fst (bindSocket (q_os_unix h) (bind_ipv4 h)) else BoundState)"
  "mIpv6Socket (onSocketTimeout h s) =
     (if mIpv6Socket s \<noteq> BoundState then fst (bindSocket (q_os_unix h) (bind_ipv6 h)) else BoundState)"
  by (simp_all add: onSocketTimeout_def Let_def beginChecking_fields bindIpv4Socket_def
      bindIpv6Socket_def split: prod.splits)

lemma onSocketTimeout_trace:
  "\<exists>errs. trace (onSocketTimeout h s) = trace s @ map EmitError errs @
     (if mIpv4Socket (onSocketTimeout h s) = BoundState \<or> mIpv6Socket (onSocketTimeout h s) = BoundState
      then joinGroups (mIpv4Socket (onSocketTimeout h s) = BoundState)
             (mIpv6Socket (onSocketTimeout h s) = BoundState) (allInterfaces h) @
           (if \<not> mHostnameConfirmed s
            then [probe IPv4 (localHostName h @ ''.local.''), probe IPv6 (localHostName h @ ''.local.''),
                  TimerStart HostnameTimer 2000]
            else [])
      else []) @
     [TimerStart SocketTimer 60000]"
proof -
  let ?e4 = "if mIpv4Socket s \<noteq> BoundState then snd (bindSocket (q_os_unix h) (bind_ipv4 h)) else []"
  let ?e6 = "if mIpv6Socket s \<noteq> BoundState then snd (bindSocket (q_os_unix h) (bind_ipv6 h)) else []"
  have "trace (onSocketTimeout h s) = trace s @ map EmitError (?e4 @ ?e6) @
     (if mIpv4Socket (onSocketTimeout h s) = BoundState \<or> mIpv6Socket (onSocketTimeout h s) = BoundState
      then joinGroups (mIpv4Socket (onSocketTimeout h s) = BoundState)
             (mIpv6Socket (onSocketTimeout h s) = BoundState) (allInterfaces h) @
           (if \<not> mHostnameConfirmed s
            then [probe IPv4 (localHostName h @ ''.local.''), probe IPv6 (localHostName h @ ''.local.''),
                  TimerStart HostnameTimer 2000]
            else [])
      else []) @
     [TimerStart SocketTimer 60000]"
    unfolding onSocketTimeout_sockets
    by (simp add: onSocketTimeout_def Let_def beginChecking_fields bindIpv4Socket_def
        bindIpv6Socket_def split: prod.splits)
  then show ?thesis by blast
qed

lemma onSocketTimeout_unconfirmed:
  assumes "\<not> mHostnameConfirmed s"
    and "mIpv4Socket (onSocketTimeout h s) = BoundState \<or> mIpv6Socket (onSocketTimeout h s) = BoundState"
  shows "mHostname (onSocketTimeout h s) = localHostName h @ ''.local.''"
    and "mHostnameSuffix (onSocketTimeout h s) = 2"
    and "\<not> mHostnameConfirmed (onSocketTimeout h s)"
    and "mHostnameTimer (onSocketTimeout h s) = Some 2000"
  using assms unfolding onSocketTimeout_sockets
  by (auto simp add: onSocketTimeout_def Let_def beginChecking_fields bindIpv4Socket_def
      bindIpv6Socket_def split: prod.splits if_splits)

lemma afterConflict_eq:
  "afterConflict = emit (probe IPv6 ''laptop-2.local.'')
     (emit (probe IPv4 ''laptop-2.local.'') (renameHost laptop probing))"
  by (simp add: afterConflict_def after_firstConflict)

lemma afterConflict_fields:
  "mHostname afterConflict = ''laptop-2.local.''"
  "mHostnameSuffix afterConflict = 3"
  "\<not> mHostnameConfirmed afterConflict"
  "mHostnameTimer afterConflict = Some 2000"
  "mIpv4Socket afterConflict = BoundState"
  "mIpv6Socket afterConflict = BoundState"
  "trace afterConflict = trace probing @ [probe IPv4 ''laptop-2.local.'', probe IPv6 ''laptop-2.local.'']"
  by (simp_all add: afterConflict_eq rename_laptop probing_fields) (simp_all add: probing_eq)

lemma joinInterface_cases:
  "addressFamilies (allAddresses i) (False, False) = (v4, v6) \<Longrightarrow>
   joinInterface b4 b6 i =
     (if canMulticast i then
        (if b4 \<and> v6 then [JoinMulticastGroup IPv4 Mdns_Ipv4Address i] else []) @
        (if b6 \<and> v6 then [JoinMulticastGroup IPv6 Mdns_Ipv6Address i] else [])
      else [])"
  by (simp add: joinInterface_def)

lemma joinInterface_no_timer: "TimerStart t ms \<notin> set (joinInterface b4 b6 i)"
proof (cases "addressFamilies (allAddresses i) (False, False)")
  case (Pair v4 v6)
  from joinInterface_cases [OF this] show ?thesis by auto
qed

lemma joinGroups_no_timer: "TimerStart t ms \<notin> set (joinGroups b4 b6 ifs)"
  by (induction ifs) (simp_all add: joinInterface_no_timer)

lemma scanAddresses_iff:
  "scanAddresses as ty =
     ((ty = Mdns_A \<and> hasAddress IPv4Protocol as) \<or> (ty = Mdns_AAAA \<and> hasAddress IPv6Protocol as))"
  by (induction as) (auto simp: hasAddress_def)

lemma scanEntries_find:
  "scanEntries hn a ty i es =
     (case find (subnetMatches a) es of
        None \<Rightarrow> Finished
      | Some e \<Rightarrow>
          if scanAddresses (allAddresses i) ty
          then Returned \<lparr>r_name = hn, r_type = ty, r_ttl = DefaultTtl, r_address = ip e\<rparr>
          else Broke)"
  by (induction es) (simp_all add: subnetMatches_def)

lemma find_None_list_ex: "(find P xs = None) = (\<not> list_ex P xs)"
  by (induction xs) simp_all

lemma scanInterfaces_Some:
  "scanInterfaces hn a ty ifs = Some r \<Longrightarrow>
   \<exists>i e. i \<in> set ifs \<and> find (subnetMatches a) (addressEntries i) = Some e \<and>
     scanAddresses (allAddresses i) ty \<and>
     r = \<lparr>r_name = hn, r_type = ty, r_ttl = DefaultTtl, r_address = ip e\<rparr>"
proof (induction ifs)
  case Nil
  then show ?case by simp
next
  case (Cons i ifs)
  show ?case
  proof (cases "scanEntries hn a ty i (addressEntries i)")
    case (Returned r')
    with Cons.prems have "r' = r" by simp
    with Returned show ?thesis
      by (auto simp: scanEntries_find split: option.splits if_splits)
  next
    case Broke
    with Cons show ?thesis by auto
  next
    case Finished
    with Cons show ?thesis by auto
  qed
qed

lemma scanInterfaces_None:
  "(scanInterfaces hn a ty ifs = None) =
     (\<forall>i \<in> set ifs. \<not> (interfaceMatches a i \<and> scanAddresses (allAddresses i) ty))"
proof (induction ifs)
  case Nil
  then show ?case by simp
next
  case (Cons i ifs)
  show ?case
  proof (cases "find (subnetMatches a) (addressEntries i)")
    case None
    then have "\<not> interfaceMatches a i"
      by (simp add: interfaceMatches_def find_None_list_ex)
    with None Cons show ?thesis by (simp add: scanEntries_find)
  next
    case (Some e)
    then have "interfaceMatches a i"
      using find_None_list_ex [of "subnetMatches a" "addressEntries i"]
      by (simp add: interfaceMatches_def)
    with Some Cons show ?thesis by (simp add: scanEntries_find)
  qed
qed

lemma DefaultTtl_value: "DefaultTtl = 3600"
  by (simp add: DefaultTtl_def)

lemma scanQueries_iff:
  "scanQueries hn qs (qa, qaaaa) =
     (qa \<or> list_ex (\<lambda>q. q_name q = hn \<and> q_type q = Mdns_A) qs,
      qaaaa \<or> list_ex (\<lambda>q. q_name q = hn \<and> q_type q = Mdns_AAAA) qs)"
  by (induction qs arbitrary: qa qaaaa) auto

lemma scanQueries_asksFor:
  "scanQueries hn (queries m) (False, False) = (asksFor hn Mdns_A m, asksFor hn Mdns_AAAA m)"
  by (simp add: scanQueries_iff asksFor_def)

lemma buildReply_envelope:
  "m_address (buildReply h s m qa qaaaa) = m_address m"
  "m_protocol (buildReply h s m qa qaaaa) = m_protocol m"
  "m_port (buildReply h s m qa qaaaa) = m_port m"
  "isResponse (buildReply h s m qa qaaaa)"
  by (simp_all add: buildReply_def Let_def reply_def addRecord_def split: option.splits)

lemma buildReply_records:
  "records (buildReply h s m qa qaaaa) =
     (if qa then (case generateRecord h s (m_address m) Mdns_A of None \<Rightarrow> [] | Some r \<Rightarrow> [r]) else []) @
     (if qaaaa then (case generateRecord h s (m_address m) Mdns_AAAA of None \<Rightarrow> [] | Some r \<Rightarrow> [r]) else [])"
  by (simp add: buildReply_def Let_def reply_def addRecord_def split: option.splits)

lemma buildReply_empty:
  "(records (buildReply h s m qa qaaaa) = []) =
     (\<not> (qa \<and> generateRecord h s (m_address m) Mdns_A \<noteq> None) \<and>
      \<not> (qaaaa \<and> generateRecord h s (m_address m) Mdns_AAAA \<noteq> None))"
  by (auto simp add: buildReply_records split: option.splits)

lemma onMessageReceived_eq:
  assumes "\<not> isResponse m"
  shows "onMessageReceived h m s =
     (if answerable h s m (m_address m) Mdns_A \<or> answerable h s m (m_address m) Mdns_AAAA
      then emit (WriteDatagram (m_protocol m)
             (buildReply h s m (asksFor (mHostname s) Mdns_A m) (asksFor (mHostname s) Mdns_AAAA m))
             (m_address m) (m_port m)) s
      else s)"
  using assms
  by (auto simp add: onMessageReceived_def scanQueries_asksFor Let_def sendMessage_eq
      buildReply_envelope buildReply_empty answerable_def)

lemma asksFor_envelope [simp]:
  "asksFor hn ty (m\<lparr>m_address := a, m_protocol := pr, m_port := p\<rparr>) = asksFor hn ty m"
  by (simp add: asksFor_def)

lemma answerable_envelope [simp]:
  "answerable h s (m\<lparr>m_address := a, m_protocol := pr, m_port := p\<rparr>) b ty = answerable h s m b ty"
  by (simp add: answerable_def)






lemma subnet_eval:
  "subnetMatches neighbour \<lparr>ip = Ipv4Host 0xC0A8010A, prefixLength = 24\<rparr>"
  "subnetMatches neighbour \<lparr>ip = Ipv4Host 0xC0A8010B, prefixLength = 24\<rparr>"
  "\<not> subnetMatches neighbour \<lparr>ip = Ipv6Host 0xFE800000000000000000000000000001, prefixLength = 64\<rparr>"
  "\<not> subnetMatches neighbour6 \<lparr>ip = Ipv4Host 0xC0A8010A, prefixLength = 24\<rparr>"
  "subnetMatches neighbour6 \<lparr>ip = Ipv6Host 0xFE800000000000000000000000000001, prefixLength = 64\<rparr>"
  by (simp_all add: subnetMatches_def neighbour_def neighbour6_def)

lemma gen_wlan0_A6:
  "generateRecord laptop confirmed neighbour6 Mdns_A =
     Some \<lparr>r_name = ''laptop.local.'', r_type = Mdns_A, r_ttl = 3600,
            r_address = Ipv6Host 0xFE800000000000000000000000000001\<rparr>"
  by (simp add: generateRecord_def laptop_def wlan0_def scanEntries_find subnet_eval
      confirmed_fields DefaultTtl_value)

lemma gen_wlan0_A4:
  "generateRecord laptop confirmed neighbour Mdns_A =
     Some \<lparr>r_name = ''laptop.local.'', r_type = Mdns_A, r_ttl = 3600,
            r_address = Ipv4Host 0xC0A8010A\<rparr>"
  by (simp add: generateRecord_def laptop_def wlan0_def scanEntries_find subnet_eval
      confirmed_fields DefaultTtl_value)

lemma gen_wired_AAAA: "generateRecord wired confirmed neighbour Mdns_AAAA = None"
  by (simp add: generateRecord_def wired_def laptop_def eth0_def scanEntries_find subnet_eval
      Mdns_A_def Mdns_AAAA_def)

lemma gen_twoLinksWhole_AAAA:
  "generateRecord twoLinksWhole confirmed neighbour Mdns_AAAA =
     Some \<lparr>r_name = ''laptop.local.'', r_type = Mdns_AAAA, r_ttl = 3600,
            r_address = Ipv4Host 0xC0A8010A\<rparr>"
  by (simp add: generateRecord_def twoLinksWhole_def laptop_def eth0_def eth1_def wholeHost_def
      scanEntries_find subnet_eval confirmed_fields DefaultTtl_value Mdns_A_def Mdns_AAAA_def)

lemma first_match_twoLinksWhole:
  "find (interfaceMatches neighbour) (allInterfaces twoLinksWhole) = Some (eth0\<lparr>allAddresses := wholeHost\<rparr>)"
  by (simp add: twoLinksWhole_def laptop_def interfaceMatches_def eth0_def subnet_eval)

lemma twoLinksWhole_lists:
  "allInterfaces twoLinksWhole = [eth0\<lparr>allAddresses := wholeHost\<rparr>, eth1]"
  "allAddresses (eth0\<lparr>allAddresses := wholeHost\<rparr>) = wholeHost"
  "allAddresses eth1 = wholeHost"
  by (simp_all add: twoLinksWhole_def laptop_def eth1_def)

lemma eth0_no_ipv6:
  "\<not> hasAddress IPv6Protocol (allAddresses eth0)"
  "\<not> hasAddress IPv6Protocol (map ip (addressEntries (eth0\<lparr>allAddresses := wholeHost\<rparr>)))"
  "hasAddress IPv4Protocol (allAddresses eth0)"
  "canMulticast eth0"
  by (simp_all add: eth0_def hasAddress_def)


lemma query_eval:
  "\<not> isResponse (queryFor hn ty)"
  "asksFor hn' ty' (queryFor hn ty) = (hn = hn' \<and> ty = ty')"
  by (auto simp add: queryFor_def MdnsMessage_def asksFor_def)

lemma A_not_AAAA: "Mdns_A \<noteq> Mdns_AAAA" "Mdns_AAAA \<noteq> Mdns_A"
  by (simp_all add: Mdns_A_def Mdns_AAAA_def)

lemma answerable_eval:
  "answerable laptop confirmed (queryFor ''laptop.local.'' Mdns_A) neighbour Mdns_A"
  "\<not> answerable laptop confirmed (queryFor ''laptop.local.'' Mdns_A) neighbour Mdns_AAAA"
  "\<not> answerable laptop confirmed (queryFor ''printer.local.'' Mdns_A) neighbour Mdns_A"
  "\<not> answerable laptop confirmed (queryFor ''printer.local.'' Mdns_A) neighbour Mdns_AAAA"
  by (simp_all add: answerable_def query_eval confirmed_fields gen_wlan0_A4 A_not_AAAA)

lemma neighbour_protocol: "protocol neighbour = IPv4Protocol"
  by (simp add: neighbour_def)

lemma confirmed_sockets:
  "mIpv4Socket confirmed = BoundState" "mIpv6Socket confirmed = BoundState"
  "mHostnameTimer confirmed = None"
  by (simp_all add: confirmed_def onHostnameTimeout_def probing_eq)







text \<open>
  Where every interface gives the same address list, a scan that finds nothing at the
  first interface whose subnet holds the asker finds nothing at any other.
\<close>

lemma shared_list_failed_scan:
  assumes "find (interfaceMatches a) (allInterfaces h) = Some i"
    and "\<not> scanAddresses (allAddresses i) ty"
    and "\<forall>j \<in> set (allInterfaces h). allAddresses j = allAddresses i"
  shows "generateRecord h s a ty = None"
  using assms by (simp add: generateRecord_def scanInterfaces_None)

section \<open>The claims\<close>




text \<open>
  C2. Once the flag \<^verbatim>\<open>mHostnameConfirmed\<close> is true, no run of events (datagrams, the
  probe timer, the rebind timer) changes the name, and the flag stays true.
\<close>

theorem hostname_fixed_once_confirmed:
  "mHostnameConfirmed s \<Longrightarrow>
   mHostname (run es s) = mHostname s \<and> mHostnameConfirmed (run es s)"
proof (induction es arbitrary: s)
  case Nil
  then show ?case by simp
next
  case (Cons e es)
  from handle_confirmed [OF Cons.prems, of e]
  have "mHostname (handle e s) = mHostname s" and c: "mHostnameConfirmed (handle e s)"
    by simp_all
  with Cons.IH [OF c] show ?case by simp
qed

theorem hostname_fixed_once_confirmed_witness:
  "mHostnameConfirmed confirmed \<and> mHostname (run laterEvents confirmed) = ''laptop.local.'' \<and>
   mHostnameConfirmed (run laterEvents confirmed)"
  using hostname_fixed_once_confirmed [OF confirmed_fields(1), of laterEvents] confirmed_fields
  by simp

text \<open>
  C3. What the handler does on a conflict, at the laptop's first conflict: it sets the
  new name and sends both probes again, and that is all. It does not start the probe
  timer: the trace holds no start of it, the timer keeps the schedule of the first
  probe, and when that schedule fires the new name is confirmed. The rebind cycle,
  which sends the same two probes, starts the timer after them.
\<close>

theorem conflict_keeps_old_probe_timer:
  "\<not> mHostnameConfirmed probing \<and> conflictResponse probing firstConflict \<and>
   mHostnameTimer probing = Some 2000 \<and>
   mHostname afterConflict = ''laptop-2.local.'' \<and>
   newCalls probing afterConflict = [probe IPv4 ''laptop-2.local.'', probe IPv6 ''laptop-2.local.''] \<and>
   TimerStart HostnameTimer 2000 \<notin> set (newCalls probing afterConflict) \<and>
   mHostnameTimer afterConflict = mHostnameTimer probing \<and>
   mHostnameConfirmed (handle HostnameTimerFires afterConflict) \<and>
   mHostname (handle HostnameTimerFires afterConflict) = ''laptop-2.local.''"
  by (simp add: probing_fields firstConflict_probing afterConflict_fields newCalls_def
      onHostnameTimeout_def probe_def)

text \<open>
  C4. Record generation on a host with two interfaces, asked for the AAAA record by a
  neighbour on the IPv4 subnet of both. The first interface whose subnet holds the
  asker has an IPv4 address only, and still the function returns true, with an AAAA
  record that carries the IPv4 address of that interface: the scan of
  \<^verbatim>\<open>interface.allAddresses()\<close> runs over the addresses of the whole host and meets the
  IPv6 address of the other interface. The comment above the scan reads: loop through
  all of the interface addresses and find one that matches the requested type.
\<close>

theorem record_for_family_the_interface_lacks:
  "allInterfaces twoLinksWhole = [eth0\<lparr>allAddresses := wholeHost\<rparr>, eth1] \<and>
   allAddresses (eth0\<lparr>allAddresses := wholeHost\<rparr>) = wholeHost \<and> allAddresses eth1 = wholeHost \<and>
   find (interfaceMatches neighbour) (allInterfaces twoLinksWhole) =
     Some (eth0\<lparr>allAddresses := wholeHost\<rparr>) \<and>
   \<not> hasAddress IPv6Protocol (map ip (addressEntries (eth0\<lparr>allAddresses := wholeHost\<rparr>))) \<and>
   generateRecord twoLinksWhole confirmed neighbour Mdns_AAAA =
     Some \<lparr>r_name = ''laptop.local.'', r_type = Mdns_AAAA, r_ttl = 3600,
            r_address = Ipv4Host 0xC0A8010A\<rparr>"
  by (intro conjI twoLinksWhole_lists first_match_twoLinksWhole eth0_no_ipv6 gen_twoLinksWhole_AAAA)




text \<open>
  C6. A generated record carries the server's name, the requested type, the TTL 3600,
  and as its address the IP of the first entry of some listed interface whose subnet
  holds the asker's address. In the witness an IPv6 asker requests the A record: the
  scan finds the IPv4 address of the interface, and the record carries the IPv6 address
  of the matched entry.
\<close>

theorem generated_record_fields:
  assumes "generateRecord h s a ty = Some r"
  shows "r_name r = mHostname s \<and> r_type r = ty \<and> r_ttl r = 3600 \<and>
         (\<exists>i e. i \<in> set (allInterfaces h) \<and>
            find (subnetMatches a) (addressEntries i) = Some e \<and> r_address r = ip e)"
  using scanInterfaces_Some [OF assms [unfolded generateRecord_def]]
  by (auto simp: DefaultTtl_value)

theorem generated_record_fields_witness:
  "generateRecord laptop confirmed neighbour6 Mdns_A =
     Some \<lparr>r_name = ''laptop.local.'', r_type = Mdns_A, r_ttl = 3600,
            r_address = Ipv6Host 0xFE800000000000000000000000000001\<rparr> \<and>
   mHostname confirmed = ''laptop.local.'' \<and>
   wlan0 \<in> set (allInterfaces laptop) \<and>
   find (subnetMatches neighbour6) (addressEntries wlan0) =
     Some \<lparr>ip = Ipv6Host 0xFE800000000000000000000000000001, prefixLength = 64\<rparr> \<and>
   hd (allAddresses wlan0) = Ipv4Host 0xC0A8010A"
proof -
  have a: "wlan0 \<in> set (allInterfaces laptop)" by (simp add: laptop_def)
  have b: "find (subnetMatches neighbour6) (addressEntries wlan0) =
     Some \<lparr>ip = Ipv6Host 0xFE800000000000000000000000000001, prefixLength = 64\<rparr>"
    by (simp add: wlan0_def subnet_eval)
  have c: "hd (allAddresses wlan0) = Ipv4Host 0xC0A8010A" by (simp add: wlan0_def)
  from generated_record_fields [OF gen_wlan0_A6] gen_wlan0_A6 confirmed_fields(2) a b c
  show ?thesis by blast
qed

text \<open>
  C7. Once the name is confirmed, a message that is not a response is answered with
  one datagram, a response holding at least one record, written to the asker, exactly
  when the message asks for the A or the AAAA record of the server's name and the
  generation of a requested record succeeds; otherwise nothing is sent and the server
  is unchanged.
\<close>

theorem reply_iff_some_record:
  assumes "mHostnameConfirmed s" and "\<not> isResponse m"
  shows "if answerable h s m a Mdns_A \<or> answerable h s m a Mdns_AAAA
         then \<exists>r. onReadyRead h (Some m) a p s =
                  emit (WriteDatagram (if protocol a = IPv4Protocol then IPv4 else IPv6) r a p) s \<and>
                isResponse r \<and> records r \<noteq> []
         else onReadyRead h (Some m) a p s = s"
proof -
  let ?m = "m\<lparr>m_address := a, m_protocol := (if protocol a = IPv4Protocol then IPv4 else IPv6),
              m_port := p\<rparr>"
  have r: "onReadyRead h (Some m) a p s = onMessageReceived h ?m s"
    using assms(1) by (simp add: onReadyRead_def Let_def)
  have q: "\<not> isResponse ?m" using assms(2) by simp
  show ?thesis
  proof (cases "answerable h s m a Mdns_A \<or> answerable h s m a Mdns_AAAA")
    case True
    let ?r = "buildReply h s ?m (asksFor (mHostname s) Mdns_A m) (asksFor (mHostname s) Mdns_AAAA m)"
    have "onReadyRead h (Some m) a p s =
            emit (WriteDatagram (if protocol a = IPv4Protocol then IPv4 else IPv6) ?r a p) s"
      using True by (simp add: r onMessageReceived_eq [OF q])
    moreover have "isResponse ?r" by (rule buildReply_envelope)
    moreover have "records ?r \<noteq> []"
      using True by (auto simp add: buildReply_empty answerable_def)
    ultimately show ?thesis using True by auto
  next
    case False
    then show ?thesis by (simp add: r onMessageReceived_eq [OF q])
  qed
qed

theorem reply_iff_some_record_witness:
  "mHostnameConfirmed confirmed \<and> \<not> isResponse (queryFor ''laptop.local.'' Mdns_A) \<and>
   answerable laptop confirmed (queryFor ''laptop.local.'' Mdns_A) neighbour Mdns_A \<and>
   (\<exists>r. onReadyRead laptop (Some (queryFor ''laptop.local.'' Mdns_A)) neighbour 5353 confirmed =
          emit (WriteDatagram IPv4 r neighbour 5353) confirmed \<and> isResponse r \<and> records r \<noteq> []) \<and>
   \<not> isResponse (queryFor ''printer.local.'' Mdns_A) \<and>
   \<not> answerable laptop confirmed (queryFor ''printer.local.'' Mdns_A) neighbour Mdns_A \<and>
   \<not> answerable laptop confirmed (queryFor ''printer.local.'' Mdns_A) neighbour Mdns_AAAA \<and>
   onReadyRead laptop (Some (queryFor ''printer.local.'' Mdns_A)) neighbour 5353 confirmed = confirmed"
  using reply_iff_some_record [OF confirmed_fields(1) query_eval(1),
      of laptop "''laptop.local.''" Mdns_A neighbour 5353]
    reply_iff_some_record [OF confirmed_fields(1) query_eval(1),
      of laptop "''printer.local.''" Mdns_A neighbour 5353]
  by (simp add: answerable_eval confirmed_fields query_eval(1) neighbour_protocol)

text \<open>
  C8. While the server probes, a datagram that does not decode, or decodes to a
  message that is not a response holding a record of type A or AAAA with the candidate
  name and a TTL other than 0, leaves the server as it was: the name, the counter and
  the trace.
\<close>

theorem only_conflicts_rename_while_probing:
  assumes "\<not> mHostnameConfirmed s"
  shows "onReadyRead h None a p s = s \<and>
         (\<not> conflictResponse s m \<longrightarrow> onReadyRead h (Some m) a p s = s)"
  using assms by (simp add: onReadyRead_quiet)

theorem only_conflicts_rename_while_probing_witness:
  "\<not> mHostnameConfirmed probing \<and> \<not> conflictResponse probing goodbye \<and>
   onReadyRead laptop None neighbour 5353 probing = probing \<and>
   onReadyRead laptop (Some goodbye) neighbour 5353 probing = probing"
  using only_conflicts_rename_while_probing [OF probing_fields(3), of laptop neighbour 5353 goodbye]
    probing_fields(3) goodbye_no_conflict
  by simp


text \<open>
  C9. A probe round, the two calls of \<^verbatim>\<open>checkHostname\<close>, writes two datagrams and
  changes nothing else: on the IPv4 socket a message with the one query (candidate
  name, A) and no record, to the IPv4 group and the mDNS port; on the IPv6 socket a
  message with the one query (candidate name, AAAA) and no record, to the IPv6 group.
\<close>

theorem probe_round:
  "checkHostname IPv6 (checkHostname IPv4 s) =
     s\<lparr>trace := trace s @
       [WriteDatagram IPv4
          \<lparr>m_address = Mdns_Ipv4Address, m_protocol = IPv4, m_port = Mdns_Port, isResponse = False,
           queries = [\<lparr>q_name = mHostname s, q_type = Mdns_A\<rparr>], records = []\<rparr>
          Mdns_Ipv4Address Mdns_Port,
        WriteDatagram IPv6
          \<lparr>m_address = Mdns_Ipv6Address, m_protocol = IPv6, m_port = Mdns_Port, isResponse = False,
           queries = [\<lparr>q_name = mHostname s, q_type = Mdns_AAAA\<rparr>], records = []\<rparr>
          Mdns_Ipv6Address Mdns_Port]\<rparr>"
  by (simp add: checkHostname_eq probe_def emit_def)

theorem probe_round_witness:
  "checkHostname IPv6 (checkHostname IPv4 probing) =
     probing\<lparr>trace := trace probing @
       [WriteDatagram IPv4
          \<lparr>m_address = Mdns_Ipv4Address, m_protocol = IPv4, m_port = Mdns_Port, isResponse = False,
           queries = [\<lparr>q_name = ''laptop.local.'', q_type = Mdns_A\<rparr>], records = []\<rparr>
          Mdns_Ipv4Address Mdns_Port,
        WriteDatagram IPv6
          \<lparr>m_address = Mdns_Ipv6Address, m_protocol = IPv6, m_port = Mdns_Port, isResponse = False,
           queries = [\<lparr>q_name = ''laptop.local.'', q_type = Mdns_AAAA\<rparr>], records = []\<rparr>
          Mdns_Ipv6Address Mdns_Port]\<rparr>"
  using probe_round [of probing] by (simp add: probing_fields)

text \<open>
  C10. A rebind cycle on an unconfirmed server, with a socket bound after the binding
  attempts, sets the name to the machine name and \<^verbatim>\<open>.local.\<close>, the counter to 2, and
  starts the probe timer with 2000 ms; the server stays unconfirmed. On a confirmed
  server the cycle leaves the name, the counter, the flag and the probe timer alone.
\<close>

theorem rebind_resets_candidate:
  "(\<not> mHostnameConfirmed s \<and>
      (mIpv4Socket (onSocketTimeout h s) = BoundState \<or> mIpv6Socket (onSocketTimeout h s) = BoundState) \<longrightarrow>
      mHostname (onSocketTimeout h s) = localHostName h @ ''.local.'' \<and>
      mHostnameSuffix (onSocketTimeout h s) = 2 \<and>
      \<not> mHostnameConfirmed (onSocketTimeout h s) \<and>
      mHostnameTimer (onSocketTimeout h s) = Some 2000 \<and>
      TimerStart HostnameTimer 2000 \<in> set (newCalls s (onSocketTimeout h s))) \<and>
   (mHostnameConfirmed s \<longrightarrow>
      mHostname (onSocketTimeout h s) = mHostname s \<and>
      mHostnameSuffix (onSocketTimeout h s) = mHostnameSuffix s \<and>
      mHostnameConfirmed (onSocketTimeout h s) \<and>
      mHostnameTimer (onSocketTimeout h s) = mHostnameTimer s \<and>
      TimerStart HostnameTimer 2000 \<notin> set (newCalls s (onSocketTimeout h s)))"
proof -
  obtain errs where t: "trace (onSocketTimeout h s) = trace s @ map EmitError errs @
     (if mIpv4Socket (onSocketTimeout h s) = BoundState \<or> mIpv6Socket (onSocketTimeout h s) = BoundState
      then joinGroups (mIpv4Socket (onSocketTimeout h s) = BoundState)
             (mIpv6Socket (onSocketTimeout h s) = BoundState) (allInterfaces h) @
           (if \<not> mHostnameConfirmed s
            then [probe IPv4 (localHostName h @ ''.local.''), probe IPv6 (localHostName h @ ''.local.''),
                  TimerStart HostnameTimer 2000]
            else [])
      else []) @
     [TimerStart SocketTimer 60000]"
    using onSocketTimeout_trace by blast
  note j = joinGroups_no_timer
  have a: "TimerStart HostnameTimer 2000 \<in> set (newCalls s (onSocketTimeout h s))"
    if "\<not> mHostnameConfirmed s"
      and "mIpv4Socket (onSocketTimeout h s) = BoundState \<or> mIpv6Socket (onSocketTimeout h s) = BoundState"
    using that by (simp add: newCalls_def t)
  have b: "TimerStart HostnameTimer 2000 \<notin> set (newCalls s (onSocketTimeout h s))"
    if "mHostnameConfirmed s"
    using that j by (auto simp add: newCalls_def t probe_def)
  show ?thesis
    using a b onSocketTimeout_unconfirmed [of s h] onSocketTimeout_confirmed [of s h]
    by blast
qed

theorem rebind_resets_candidate_witness:
  "\<not> mHostnameConfirmed afterConflict \<and> mHostname afterConflict = ''laptop-2.local.'' \<and>
   mHostnameSuffix afterConflict = 3 \<and>
   mIpv4Socket (onSocketTimeout laptop afterConflict) = BoundState \<and>
   mHostname (onSocketTimeout laptop afterConflict) = ''laptop.local.'' \<and>
   mHostnameSuffix (onSocketTimeout laptop afterConflict) = 2 \<and>
   mHostnameTimer (onSocketTimeout laptop afterConflict) = Some 2000 \<and>
   TimerStart HostnameTimer 2000 \<in> set (newCalls afterConflict (onSocketTimeout laptop afterConflict)) \<and>
   mHostnameConfirmed confirmed \<and>
   mHostname (onSocketTimeout laptop confirmed) = ''laptop.local.'' \<and>
   mHostnameSuffix (onSocketTimeout laptop confirmed) = 2 \<and>
   mHostnameTimer (onSocketTimeout laptop confirmed) = None \<and>
   TimerStart HostnameTimer 2000 \<notin> set (newCalls confirmed (onSocketTimeout laptop confirmed))"
proof -
  have b: "mIpv4Socket (onSocketTimeout laptop afterConflict) = BoundState"
    by (simp add: onSocketTimeout_sockets afterConflict_fields)
  from rebind_resets_candidate [of afterConflict laptop] rebind_resets_candidate [of confirmed laptop]
    b afterConflict_fields confirmed_fields confirmed_sockets laptop_name
  show ?thesis by simp
qed

end
